theory Spec2Isabelle
  imports Complex_Main
begin

section \<open>Values and schemas of json-schema.js\<close>

text \<open>
  A JavaScript value as the validator sees it: \<open>undefined\<close>, \<open>null\<close>, booleans, numbers,
  strings, arrays and string-keyed objects. Arrays and objects carry the reference of the
  heap object they are, because \<open>===\<close> compares containers by reference. A schema is a
  value too: the code reads its fields with \<open>schema.type\<close>, \<open>schema.items\<close> and so on.

  A number is a double: \<open>JNum x\<close> is the finite number of value \<open>x\<close> (every finite double
  is a rational, and doubles compare as their values do), \<open>JInf True\<close> and \<open>JInf False\<close>
  are \<open>Infinity\<close> and \<open>-Infinity\<close>, and \<open>JNaN\<close> is \<open>NaN\<close>. Arithmetic that rounds is
  not computed here: it is asked of the host (see \<open>host\<close> below).

  Every object is a plain one, as \<open>JSON.parse\<close> and object literals make them: its
  prototype is \<open>Object.prototype\<close>. \<open>JFun name\<close> is the function that \<open>Object.prototype\<close>
  has under \<open>name\<close>. The reference \<open>Prototype\<close> is that of \<open>Object.prototype\<close> itself, and
  \<open>Singleton\<close> that of \<open>JsonSchemaValidator.unconstrainedSchema\<close>.
\<close>

datatype ref = Ref nat | Copy ref | Fresh | Singleton | Prototype

datatype jv =
    JUndef
  | JNull
  | JBool bool
  | JNum rat
  | JInf bool
  | JNaN
  | JStr string
  | JFun string
  | JArr ref "jv list"
  | JObj ref "(string \<times> jv) list"

text \<open>\<open>o.k\<close> for a name that no object inherits, or that is known to be an own property of
  \<open>o\<close>: the own property, or \<open>undefined\<close>. The names that the validator reads of a schema
  are of the first kind, and the names it reads of an object after listing its own
  properties are of the second. (Reading a field of \<open>null\<close> or \<open>undefined\<close> raises; the
  callers test for that.)\<close>

fun field :: "jv \<Rightarrow> string \<Rightarrow> jv" where
  "field (JObj r kvs) k = (case map_of kvs k of Some v \<Rightarrow> v | None \<Rightarrow> JUndef)"
| "field _ k = JUndef"

text \<open>\<open>a[i]\<close> for a number \<open>i\<close>: the element, or \<open>undefined\<close> out of range.\<close>

fun elem :: "jv \<Rightarrow> nat \<Rightarrow> jv" where
  "elem (JArr r xs) i = (if i < length xs then xs ! i else JUndef)"
| "elem _ i = JUndef"

fun isArray :: "jv \<Rightarrow> bool" where
  "isArray (JArr r xs) = True"
| "isArray _ = False"

fun isObject :: "jv \<Rightarrow> bool" where
  "isObject (JObj r kvs) = True"
| "isObject _ = False"

fun items_of :: "jv \<Rightarrow> jv list" where
  "items_of (JArr r xs) = xs"
| "items_of _ = []"

text \<open>\<open>Object.getOwnPropertyNames(value)\<close>, each name once.\<close>

fun ownPropertyNames :: "jv \<Rightarrow> string list" where
  "ownPropertyNames (JObj r kvs) = rev (remdups (rev (map fst kvs)))"
| "ownPropertyNames _ = []"

text \<open>\<open>Object.prototype\<close>: its own properties are functions, and \<open>__proto__\<close>, under
  which it gives its own prototype, \<open>null\<close>. They are listed in the order of
  \<open>Object.getOwnPropertyNames\<close>.\<close>

definition objectPrototype :: jv where
  "objectPrototype = JObj Prototype
     [(''constructor'', JFun ''constructor''),
      (''__defineGetter__'', JFun ''__defineGetter__''),
      (''__defineSetter__'', JFun ''__defineSetter__''),
      (''hasOwnProperty'', JFun ''hasOwnProperty''),
      (''__lookupGetter__'', JFun ''__lookupGetter__''),
      (''__lookupSetter__'', JFun ''__lookupSetter__''),
      (''isPrototypeOf'', JFun ''isPrototypeOf''),
      (''propertyIsEnumerable'', JFun ''propertyIsEnumerable''),
      (''toString'', JFun ''toString''),
      (''valueOf'', JFun ''valueOf''),
      (''__proto__'', JNull),
      (''toLocaleString'', JFun ''toLocaleString'')]"

text \<open>\<open>o[name]\<close> for an object \<open>o\<close> and any name: the own property; or else what the
  object inherits from \<open>Object.prototype\<close>: that prototype itself under \<open>__proto__\<close>, and
  the property of the prototype under any other name. (\<open>Object.prototype\<close> itself
  inherits nothing.)\<close>

fun propertyOf :: "jv \<Rightarrow> string \<Rightarrow> jv" where
  "propertyOf (JObj r kvs) name =
     (case map_of kvs name of
        Some v \<Rightarrow> v
      | None \<Rightarrow>
          if r = Prototype then JUndef
          else if name = ''__proto__'' then objectPrototype
          else field objectPrototype name)"
| "propertyOf _ name = JUndef"

fun getValueType :: "jv \<Rightarrow> string" where
  "getValueType JUndef = ''undefined''"
| "getValueType JNull = ''null''"
| "getValueType (JBool b) = ''boolean''"
| "getValueType (JNum x) = ''number''"
| "getValueType (JInf positive) = ''number''"
| "getValueType JNaN = ''number''"
| "getValueType (JStr s) = ''string''"
| "getValueType (JFun name) = ''function''"
| "getValueType (JArr r xs) = ''array''"
| "getValueType (JObj r kvs) = ''object''"

text \<open>\<open>Math.floor(value) === value\<close>: \<open>Math.floor\<close> returns a number, and \<open>===\<close> between a
  number and a value of another type is false. The floor of an infinity is that
  infinity, and the floor of \<open>NaN\<close> is \<open>NaN\<close>, which equals nothing.\<close>

fun floorIsValue :: "jv \<Rightarrow> bool" where
  "floorIsValue (JNum x) = (of_int \<lfloor>x\<rfloor> = x)"
| "floorIsValue (JInf positive) = True"
| "floorIsValue _ = False"

definition isValueType :: "jv \<Rightarrow> string \<Rightarrow> jv \<Rightarrow> bool" where
  "isValueType value type schemaType =
     (JStr type = schemaType \<or> (schemaType = JStr ''integer'' \<and> floorIsValue value))"

fun isValueTypeAny :: "jv \<Rightarrow> string \<Rightarrow> jv \<Rightarrow> bool" where
  "isValueTypeAny value type (JStr s) = isValueType value type (JStr s)"
| "isValueTypeAny value type (JArr r schemaTypes) =
     list_ex (\<lambda>schemaType. isValueType value type schemaType) schemaTypes"
| "isValueTypeAny value type _ = True"


section \<open>Errors\<close>

text \<open>The message of a \<open>JsonSchemaValidationError\<close>, with the interpolated parts as
  arguments. \<open>TypeError\<close> is what reading a field of \<open>null\<close> or \<open>undefined\<close> raises.
  \<open>PrototypeChange\<close> is no exception of the code: it marks a call in which the code
  goes on to populate \<open>Object.prototype\<close> or to replace the prototype of an object, after
  which the objects are no longer the plain objects described here. Such a call is not
  followed further, and nothing is proved of what the code returns from it.\<close>

datatype message =
    TypeMismatch string jv
  | InvalidConstant
  | InvalidEnum
  | NotMultipleOf jv
  | LessThanMinimum jv
  | LessOrEqualMinimum jv
  | GreaterThanMaximum jv
  | GreaterOrEqualMaximum jv
  | StringTooShort
  | StringTooLong
  | PatternInvalid
  | PatternFailed
  | ArrayTooShort
  | ArrayTooLong
  | NoSchemaForIndex nat
  | MissingProperty jv
  | NotEnoughProperties
  | TooManyProperties
  | NoSchemaForProperty string
  | AnyOfNoneMatched
  | OneOfMatched nat
  | NotMatched nat

datatype error = JsonSchemaValidationError message jv jv | TypeError | PrototypeChange


section \<open>The host\<close>

text \<open>What the program takes from the JavaScript engine and does not define itself:
  \<open>regExp host pattern flags\<close> is \<open>None\<close> when \<open>new RegExp(pattern, flags)\<close> raises, and the
  test of the compiled expression otherwise; \<open>floorMultiple host value multipleOf\<close> is the
  number \<open>Math.floor(value / multipleOf) * multipleOf\<close> as double arithmetic gives it,
  rounding included; \<open>toPropertyKey host value\<close> is the property name that a value
  converts to when the code indexes an object with it; \<open>parseInt host digits\<close> is
  \<open>parseInt(digits, 10)\<close> for a string of decimal digits, which is the number they spell
  rounded to a double.\<close>

record host =
  regExp :: "string \<Rightarrow> string \<Rightarrow> (string \<Rightarrow> bool) option"
  floorMultiple :: "jv \<Rightarrow> jv \<Rightarrow> jv"
  toPropertyKey :: "jv \<Rightarrow> string"
  parseInt :: "string \<Rightarrow> nat"


section \<open>Schema resolution\<close>

text \<open>A property key: a name, or the number a loop over an array passes.\<close>

datatype pkey = PName string | PIndex nat

text \<open>The decimal digits of a number: the property name of an array index.\<close>

fun digits :: "nat \<Rightarrow> nat \<Rightarrow> string" where
  "digits 0 n = []"
| "digits (Suc fuel) n =
     (if n < 10 then [char_of (48 + n)] else digits fuel (n div 10) @ [char_of (48 + n mod 10)])"

definition showNat :: "nat \<Rightarrow> string" where
  "showNat n = digits (Suc n) n"

text \<open>The name under which an object is indexed with a key.\<close>

fun propertyName :: "host \<Rightarrow> pkey \<Rightarrow> string" where
  "propertyName host (PName s) = s"
| "propertyName host (PIndex n) = toPropertyKey host (JNum (of_nat n))"

fun propertyValue :: "pkey \<Rightarrow> jv" where
  "propertyValue (PName s) = JStr s"
| "propertyValue (PIndex n) = JNum (of_nat n)"

text \<open>\<open>property >= 0 && property < items.length\<close> followed by \<open>items[property]\<close>: for a
  number, the index itself; for a name, the index it is the canonical spelling of (any
  other name either fails the comparison or names no element).\<close>

fun itemIndex :: "pkey \<Rightarrow> nat \<Rightarrow> nat option" where
  "itemIndex (PIndex n) len = (if n < len then Some n else None)"
| "itemIndex (PName s) len = find (\<lambda>n. showNat n = s) [0..<len]"

definition unconstrainedSchema :: jv where
  "unconstrainedSchema = JObj Singleton []"

text \<open>Reading \<open>schema.type\<close> raises when the schema is \<open>null\<close> or \<open>undefined\<close>.\<close>

definition getSchemaOrValueType :: "jv \<Rightarrow> jv \<Rightarrow> error + jv" where
  "getSchemaOrValueType schema value =
     (if schema = JNull \<or> schema = JUndef then Inl TypeError
      else
        (let type = field schema ''type'' in
         if isArray type then
           (if value \<noteq> JUndef \<and> JStr (getValueType value) \<in> set (items_of type)
            then Inr (JStr (getValueType value)) else Inr JNull)
         else if type = JUndef then
           (if value \<noteq> JUndef then Inr (JStr (getValueType value)) else Inr JNull)
         else Inr type))"

text \<open>The result is the schema found (\<open>None\<close> for \<open>null\<close>) and the entries the code pushes
  on \<open>path\<close> when the caller passes one.\<close>

definition getAdditionalItems :: "jv \<Rightarrow> jv option \<times> (jv \<times> jv) list" where
  "getAdditionalItems schema =
     (let additionalItems = field schema ''additionalItems'' in
      if additionalItems = JBool False then (None, [])
      else if isObject additionalItems then
        (Some additionalItems, [(JStr ''additionalItems'', additionalItems)])
      else (Some unconstrainedSchema, [(JNull, unconstrainedSchema)]))"

text \<open>\<open>properties[property]\<close> is read of an object with any name the caller has, so it
  can be inherited: \<open>properties['__proto__']\<close> is \<open>Object.prototype\<close>, an object.\<close>

definition getPropertySchema ::
  "host \<Rightarrow> jv \<Rightarrow> pkey \<Rightarrow> jv \<Rightarrow> error + (jv option \<times> (jv \<times> jv) list)" where
  "getPropertySchema host schema property value =
     (case getSchemaOrValueType schema value of
        Inl e \<Rightarrow> Inl e
      | Inr type \<Rightarrow>
          Inr
            (if type = JStr ''object'' then
               (let properties = field schema ''properties'';
                    propertySchema = propertyOf properties (propertyName host property) in
                if isObject properties \<and> isObject propertySchema then
                  (Some propertySchema,
                   [(JStr ''properties'', properties), (propertyValue property, propertySchema)])
                else
                  (let additionalProperties = field schema ''additionalProperties'' in
                   if additionalProperties = JBool False then (None, [])
                   else if isObject additionalProperties then
                     (Some additionalProperties,
                      [(JStr ''additionalProperties'', additionalProperties)])
                   else (Some unconstrainedSchema, [(JNull, unconstrainedSchema)])))
             else if type = JStr ''array'' then
               (let items = field schema ''items'' in
                if isObject items then (Some items, [])
                else
                  (case (if isArray items then itemIndex property (length (items_of items))
                         else None) of
                     Some n \<Rightarrow>
                       if isObject (items_of items ! n) then
                         (Some (items_of items ! n),
                          [(JStr ''items'', items), (propertyValue property, items_of items ! n)])
                       else getAdditionalItems schema
                   | None \<Rightarrow> getAdditionalItems schema))
             else (None, [])))"


section \<open>Traversal information\<close>

record info =
  valuePath :: "(jv \<times> jv) list"
  schemaPath :: "(jv \<times> jv) list"

definition valuePush :: "jv \<Rightarrow> jv \<Rightarrow> info \<Rightarrow> info" where
  "valuePush path value i = i\<lparr>valuePath := valuePath i @ [(path, value)]\<rparr>"

definition valuePop :: "info \<Rightarrow> info" where
  "valuePop i = i\<lparr>valuePath := butlast (valuePath i)\<rparr>"

definition schemaPush :: "jv \<Rightarrow> jv \<Rightarrow> info \<Rightarrow> info" where
  "schemaPush path schema i = i\<lparr>schemaPath := schemaPath i @ [(path, schema)]\<rparr>"

definition schemaPop :: "info \<Rightarrow> info" where
  "schemaPop i = i\<lparr>schemaPath := butlast (schemaPath i)\<rparr>"

text \<open>\<open>new JsonSchemaTraversalInfo(value, schema)\<close>.\<close>

definition newInfo :: "jv \<Rightarrow> jv \<Rightarrow> info" where
  "newInfo value schema =
     schemaPush JNull schema (valuePush JNull value \<lparr>valuePath = [], schemaPath = []\<rparr>)"

text \<open>\<open>for (const [p, s] of schemaPath) { info.schemaPush(p, s); }\<close> and the loop of
  \<open>schemaPop\<close> calls that undoes it.\<close>

fun schemaPushAll :: "(jv \<times> jv) list \<Rightarrow> info \<Rightarrow> info" where
  "schemaPushAll [] i = i"
| "schemaPushAll ((p, s) # rest) i = schemaPushAll rest (schemaPush p s i)"

fun schemaPopN :: "nat \<Rightarrow> info \<Rightarrow> info" where
  "schemaPopN 0 i = i"
| "schemaPopN (Suc n) i = schemaPopN n (schemaPop i)"

text \<open>A call either returns (\<open>None\<close>) or raises; the traversal information is one mutable
  object, so the caller sees it as the callee left it in both cases.\<close>

type_synonym outcome = "error option \<times> info"

definition andThen :: "outcome \<Rightarrow> (info \<Rightarrow> outcome) \<Rightarrow> outcome" where
  "andThen r f = (case r of (None, i) \<Rightarrow> f i | (Some e, i) \<Rightarrow> (Some e, i))"

definition raise :: "message \<Rightarrow> jv \<Rightarrow> jv \<Rightarrow> info \<Rightarrow> outcome" where
  "raise m value schema i = (Some (JsonSchemaValidationError m value schema), i)"


section \<open>Checks that do not recurse\<close>

text \<open>\<open>===\<close>: primitives by value, except that \<open>NaN\<close> equals nothing; containers by
  reference.\<close>

definition valuesAreEqual :: "jv \<Rightarrow> jv \<Rightarrow> bool" where
  "valuesAreEqual value1 value2 =
     (case value1 of
        JArr r xs \<Rightarrow> (case value2 of JArr r' ys \<Rightarrow> r = r' | _ \<Rightarrow> False)
      | JObj r kvs \<Rightarrow> (case value2 of JObj r' kvs' \<Rightarrow> r = r' | _ \<Rightarrow> False)
      | JNaN \<Rightarrow> False
      | _ \<Rightarrow> value1 = value2)"

definition valuesAreEqualAny :: "jv \<Rightarrow> jv list \<Rightarrow> bool" where
  "valuesAreEqualAny value1 valueList = list_ex (\<lambda>value2. valuesAreEqual value1 value2) valueList"

text \<open>\<open>a < b\<close> and \<open>a <= b\<close> where each of \<open>a\<close> and \<open>b\<close> is a number or \<open>undefined\<close>: false
  when one of them is \<open>NaN\<close> or \<open>undefined\<close> (which converts to \<open>NaN\<close>).\<close>

fun jsLess :: "jv \<Rightarrow> jv \<Rightarrow> bool" where
  "jsLess (JNum a) (JNum b) = (a < b)"
| "jsLess (JNum a) (JInf positive) = positive"
| "jsLess (JInf positive) (JNum b) = (\<not> positive)"
| "jsLess (JInf positive) (JInf positive') = (\<not> positive \<and> positive')"
| "jsLess _ _ = False"

fun jsLessEq :: "jv \<Rightarrow> jv \<Rightarrow> bool" where
  "jsLessEq (JNum a) (JNum b) = (a \<le> b)"
| "jsLessEq (JNum a) (JInf positive) = positive"
| "jsLessEq (JInf positive) (JNum b) = (\<not> positive)"
| "jsLessEq (JInf positive) (JInf positive') = (positive \<longrightarrow> positive')"
| "jsLessEq _ _ = False"

text \<open>\<open>typeof x === 'number'\<close>.\<close>

fun isNumber :: "jv \<Rightarrow> bool" where
  "isNumber (JNum x) = True"
| "isNumber (JInf positive) = True"
| "isNumber JNaN = True"
| "isNumber _ = False"

fun lengthOf :: "jv \<Rightarrow> jv" where
  "lengthOf (JStr s) = JNum (of_nat (length s))"
| "lengthOf (JArr r xs) = JNum (of_nat (length xs))"
| "lengthOf _ = JUndef"

text \<open>\<open>Math.floor(value / multipleOf) * multipleOf !== value\<close>.\<close>

definition notMultiple :: "host \<Rightarrow> jv \<Rightarrow> jv \<Rightarrow> bool" where
  "notMultiple host value multipleOf =
     (\<not> valuesAreEqual (floorMultiple host value multipleOf) value)"

definition validateNumber :: "host \<Rightarrow> jv \<Rightarrow> jv \<Rightarrow> info \<Rightarrow> outcome" where
  "validateNumber host value schema i =
     (let multipleOf = field schema ''multipleOf'';
          minimum = field schema ''minimum'';
          exclusiveMinimum = field schema ''exclusiveMinimum'';
          maximum = field schema ''maximum'';
          exclusiveMaximum = field schema ''exclusiveMaximum'' in
      if isNumber multipleOf \<and> notMultiple host value multipleOf then
        raise (NotMultipleOf multipleOf) value schema i
      else if isNumber minimum \<and> jsLess value minimum then
        raise (LessThanMinimum minimum) value schema i
      else if isNumber exclusiveMinimum \<and> jsLessEq value exclusiveMinimum then
        raise (LessOrEqualMinimum exclusiveMinimum) value schema i
      else if isNumber maximum \<and> jsLess maximum value then
        raise (GreaterThanMaximum maximum) value schema i
      else if isNumber exclusiveMaximum \<and> jsLessEq exclusiveMaximum value then
        raise (GreaterOrEqualMaximum exclusiveMaximum) value schema i
      else (None, i))"

fun stringOf :: "jv \<Rightarrow> string" where
  "stringOf (JStr s) = s"
| "stringOf _ = []"

fun isString :: "jv \<Rightarrow> bool" where
  "isString (JStr s) = True"
| "isString _ = False"

definition validateString :: "host \<Rightarrow> jv \<Rightarrow> jv \<Rightarrow> info \<Rightarrow> outcome" where
  "validateString host value schema i =
     (let minLength = field schema ''minLength'';
          maxLength = field schema ''maxLength'';
          pattern = field schema ''pattern'';
          patternFlags = (if isString (field schema ''patternFlags'')
                          then stringOf (field schema ''patternFlags'') else []) in
      if isNumber minLength \<and> jsLess (lengthOf value) minLength then
        raise StringTooShort value schema i
      else if isNumber maxLength \<and> jsLess maxLength (lengthOf value) then
        raise StringTooLong value schema i
      else if isString pattern then
        (case regExp host (stringOf pattern) patternFlags of
           None \<Rightarrow> raise PatternInvalid value schema i
         | Some test \<Rightarrow>
             if \<not> test (stringOf value) then raise PatternFailed value schema i else (None, i))
      else (None, i))"


section \<open>The validator\<close>

text \<open>\<open>properties.has(property)\<close> on the set of names: a property that is not a string
  is in no such set.\<close>

fun hasProperty :: "string list \<Rightarrow> jv \<Rightarrow> bool" where
  "hasProperty properties (JStr s) = (s \<in> set properties)"
| "hasProperty properties _ = False"

text \<open>\<open>properties.length\<close>, where \<open>properties\<close> is a \<open>Set\<close>: a \<open>Set\<close> has a \<open>size\<close> and no
  \<open>length\<close>, so the expression is \<open>undefined\<close>.\<close>

definition setLength :: "string list \<Rightarrow> jv" where
  "setLength properties = JUndef"

text \<open>The methods of \<open>JsonSchemaValidator\<close> that call \<open>validate\<close>, each \<open>for\<close> loop as a
  function of its own over the sub-schemas or indices still to visit. \<open>objectLoop\<close> runs
  for object values only (\<open>validateSingleSchema\<close> calls \<open>validateObject\<close> when the type
  of the value is \<open>object\<close>); its test of that is what makes the recursion well-founded.\<close>

function
  validate :: "host \<Rightarrow> jv \<Rightarrow> jv \<Rightarrow> info \<Rightarrow> outcome" and
  validateConditional :: "host \<Rightarrow> jv \<Rightarrow> jv \<Rightarrow> info \<Rightarrow> outcome" and
  validateAllOf :: "host \<Rightarrow> jv \<Rightarrow> jv \<Rightarrow> info \<Rightarrow> outcome" and
  allOfLoop :: "host \<Rightarrow> jv \<Rightarrow> jv list \<Rightarrow> nat \<Rightarrow> info \<Rightarrow> outcome" and
  validateAnyOf :: "host \<Rightarrow> jv \<Rightarrow> jv \<Rightarrow> info \<Rightarrow> outcome" and
  anyOfLoop :: "host \<Rightarrow> jv \<Rightarrow> jv \<Rightarrow> jv list \<Rightarrow> nat \<Rightarrow> info \<Rightarrow> outcome" and
  validateOneOf :: "host \<Rightarrow> jv \<Rightarrow> jv \<Rightarrow> info \<Rightarrow> outcome" and
  oneOfLoop :: "host \<Rightarrow> jv \<Rightarrow> jv list \<Rightarrow> nat \<Rightarrow> nat \<Rightarrow> info \<Rightarrow> nat \<times> info" and
  validateNoneOf :: "host \<Rightarrow> jv \<Rightarrow> jv \<Rightarrow> info \<Rightarrow> outcome" and
  noneOfLoop :: "host \<Rightarrow> jv \<Rightarrow> jv \<Rightarrow> jv list \<Rightarrow> nat \<Rightarrow> info \<Rightarrow> outcome" and
  validateSingleSchema :: "host \<Rightarrow> jv \<Rightarrow> jv \<Rightarrow> info \<Rightarrow> outcome" and
  validateArray :: "host \<Rightarrow> jv \<Rightarrow> jv \<Rightarrow> info \<Rightarrow> outcome" and
  arrayLoop :: "host \<Rightarrow> jv \<Rightarrow> jv \<Rightarrow> nat \<Rightarrow> info \<Rightarrow> outcome" and
  validateObject :: "host \<Rightarrow> jv \<Rightarrow> jv \<Rightarrow> info \<Rightarrow> outcome" and
  objectLoop :: "host \<Rightarrow> jv \<Rightarrow> jv \<Rightarrow> string list \<Rightarrow> info \<Rightarrow> outcome"
where
  "validate host value schema i =
     (if schema = JNull \<or> schema = JUndef then (Some TypeError, i)
      else
        andThen (validateSingleSchema host value schema i) (\<lambda>i.
        andThen (validateConditional host value schema i) (\<lambda>i.
        andThen (validateAllOf host value schema i) (\<lambda>i.
        andThen (validateAnyOf host value schema i) (\<lambda>i.
        andThen (validateOneOf host value schema i) (\<lambda>i.
        validateNoneOf host value schema i))))))"
| "validateConditional host value schema i =
     (let ifSchema = field schema ''if'' in
      if \<not> isObject ifSchema then (None, i)
      else
        (case validate host value ifSchema (schemaPush (JStr ''if'') ifSchema i) of
           (r, i1) \<Rightarrow>
             (let okay = (r = None);
                  i2 = schemaPop i1;
                  nextSchema = (if okay then field schema ''then'' else field schema ''else'') in
              if isObject nextSchema then
                andThen
                  (validate host value nextSchema
                     (schemaPush (JStr (if okay then ''then'' else ''else'')) nextSchema i2))
                  (\<lambda>i. (None, schemaPop i))
              else (None, i2))))"
| "validateAllOf host value schema i =
     (let subSchemas = field schema ''allOf'' in
      if \<not> isArray subSchemas then (None, i)
      else
        andThen (allOfLoop host value (items_of subSchemas) 0 (schemaPush (JStr ''allOf'') subSchemas i))
          (\<lambda>i. (None, schemaPop i)))"
| "allOfLoop host value [] n i = (None, i)"
| "allOfLoop host value (subSchema # rest) n i =
     andThen (validate host value subSchema (schemaPush (JNum (of_nat n)) subSchema i))
       (\<lambda>i. allOfLoop host value rest (Suc n) (schemaPop i))"
| "validateAnyOf host value schema i =
     (let subSchemas = field schema ''anyOf'' in
      if \<not> isArray subSchemas then (None, i)
      else anyOfLoop host value schema (items_of subSchemas) 0 (schemaPush (JStr ''anyOf'') subSchemas i))"
| "anyOfLoop host value schema [] n i = raise AnyOfNoneMatched value schema i"
| "anyOfLoop host value schema (subSchema # rest) n i =
     (case validate host value subSchema (schemaPush (JNum (of_nat n)) subSchema i) of
        (None, i1) \<Rightarrow> (None, i1)
      | (Some e, i1) \<Rightarrow> anyOfLoop host value schema rest (Suc n) (schemaPop i1))"
| "validateOneOf host value schema i =
     (let subSchemas = field schema ''oneOf'' in
      if \<not> isArray subSchemas then (None, i)
      else
        (case oneOfLoop host value (items_of subSchemas) 0 0 (schemaPush (JStr ''oneOf'') subSchemas i) of
           (count, i1) \<Rightarrow>
             if count \<noteq> 1 then raise (OneOfMatched count) value schema i1
             else (None, schemaPop i1)))"
| "oneOfLoop host value [] n count i = (count, i)"
| "oneOfLoop host value (subSchema # rest) n count i =
     (case validate host value subSchema (schemaPush (JNum (of_nat n)) subSchema i) of
        (None, i1) \<Rightarrow> oneOfLoop host value rest (Suc n) (Suc count) (schemaPop i1)
      | (Some e, i1) \<Rightarrow> oneOfLoop host value rest (Suc n) count (schemaPop i1))"
| "validateNoneOf host value schema i =
     (let subSchemas = field schema ''not'' in
      if \<not> isArray subSchemas then (None, i)
      else
        andThen (noneOfLoop host value schema (items_of subSchemas) 0 (schemaPush (JStr ''not'') subSchemas i))
          (\<lambda>i. (None, schemaPop i)))"
| "noneOfLoop host value schema [] n i = (None, i)"
| "noneOfLoop host value schema (subSchema # rest) n i =
     (case validate host value subSchema (schemaPush (JNum (of_nat n)) subSchema i) of
        (Some e, i1) \<Rightarrow> noneOfLoop host value schema rest (Suc n) (schemaPop i1)
      | (None, i1) \<Rightarrow> raise (NotMatched n) value schema i1)"
| "validateSingleSchema host value schema i =
     (let type = getValueType value;
          schemaType = field schema ''type'';
          schemaConst = field schema ''const'';
          schemaEnum = field schema ''enum'' in
      if \<not> isValueTypeAny value type schemaType then
        raise (TypeMismatch type schemaType) value schema i
      else if schemaConst \<noteq> JUndef \<and> \<not> valuesAreEqual value schemaConst then
        raise InvalidConstant value schema i
      else if isArray schemaEnum \<and> \<not> valuesAreEqualAny value (items_of schemaEnum) then
        raise InvalidEnum value schema i
      else if type = ''number'' then validateNumber host value schema i
      else if type = ''string'' then validateString host value schema i
      else if type = ''array'' then validateArray host value schema i
      else if type = ''object'' then validateObject host value schema i
      else (None, i))"
| "validateArray host value schema i =
     (let minItems = field schema ''minItems'';
          maxItems = field schema ''maxItems'' in
      if isNumber minItems \<and> jsLess (lengthOf value) minItems then
        raise ArrayTooShort value schema i
      else if isNumber maxItems \<and> jsLess maxItems (lengthOf value) then
        raise ArrayTooLong value schema i
      else arrayLoop host value schema 0 i)"
| "arrayLoop host value schema n i =
     (if n < length (items_of value) then
        (case getPropertySchema host schema (PIndex n) value of
           Inl e \<Rightarrow> (Some e, i)
         | Inr (None, path) \<Rightarrow> raise (NoSchemaForIndex n) value schema i
         | Inr (Some propertySchema, path) \<Rightarrow>
             andThen
               (validate host (elem value n) propertySchema
                  (valuePush (JNum (of_nat n)) (elem value n) (schemaPushAll path i)))
               (\<lambda>i. arrayLoop host value schema (Suc n)
                       (schemaPopN (length path) (valuePop i))))
      else (None, i))"
| "validateObject host value schema i =
     (let properties = ownPropertyNames value;
          required = field schema ''required'';
          minProperties = field schema ''minProperties'';
          maxProperties = field schema ''maxProperties'' in
      case (if isArray required
            then find (\<lambda>property. \<not> hasProperty properties property) (items_of required)
            else None) of
        Some property \<Rightarrow> raise (MissingProperty property) value schema i
      | None \<Rightarrow>
          if isNumber minProperties \<and> jsLess (setLength properties) minProperties then
            raise NotEnoughProperties value schema i
          else if isNumber maxProperties \<and> jsLess maxProperties (setLength properties) then
            raise TooManyProperties value schema i
          else objectLoop host value schema properties i)"
| "objectLoop host value schema [] i = (None, i)"
| "objectLoop host value schema (property # rest) i =
     (if isObject value then
        (case getPropertySchema host schema (PName property) value of
           Inl e \<Rightarrow> (Some e, i)
         | Inr (None, path) \<Rightarrow> raise (NoSchemaForProperty property) value schema i
         | Inr (Some propertySchema, path) \<Rightarrow>
             andThen
               (validate host (field value property) propertySchema
                  (valuePush (JStr property) (field value property) (schemaPushAll path i)))
               (\<lambda>i. objectLoop host value schema rest
                       (schemaPopN (length path) (valuePop i))))
      else (None, i))"
  by pat_completeness auto


text \<open>Termination: a call either descends into the value, or keeps the value and descends
  into the schema (a loop over sub-schemas holds the ones still to visit), or moves to a
  method that \<open>validate\<close> calls on the same value and schema.\<close>

lemma size_map_of: "map_of kvs k = Some v \<Longrightarrow> size v < Suc (size_list (size_prod (\<lambda>x. 0) size) kvs)"
  by (induction kvs) (auto split: if_splits)

lemma size_field: "isObject v \<Longrightarrow> size (field v k) < size v"
  by (cases v) (auto split: option.splits dest: size_map_of)

lemma size_field_schema: "isObject (field s k) \<Longrightarrow> size (field s k) < size s"
  by (cases s) (auto split: option.splits dest: size_map_of)

lemma size_items_field: "isArray (field s k) \<Longrightarrow> size_list size (items_of (field s k)) < size s"
  by (cases s; cases "field s k") (auto split: option.splits dest: size_map_of)

lemma size_nth: "n < length xs \<Longrightarrow> size (xs ! n) < Suc (size_list size xs)"
proof (induction xs arbitrary: n)
  case Nil
  then show ?case by simp
next
  case (Cons x xs)
  then show ?case by (cases n) (simp, fastforce)
qed

lemma size_elem: "n < length (items_of v) \<Longrightarrow> size (elem v n) < size v"
  by (cases v) (simp_all add: size_nth)

definition schemaOrder :: "nat \<Rightarrow> 'r \<times> jv \<times> jv \<times> 'i \<Rightarrow> nat \<times> nat \<times> nat" where
  "schemaOrder c = (\<lambda>(host, value, schema, i). (2 * size value + 1, size schema, c))"

definition listOrder3 :: "'r \<times> jv \<times> jv list \<times> 'x \<Rightarrow> nat \<times> nat \<times> nat" where
  "listOrder3 = (\<lambda>(host, value, subSchemas, rest). (2 * size value + 1, size_list size subSchemas, 0))"

definition listOrder4 :: "'r \<times> jv \<times> jv \<times> jv list \<times> 'x \<Rightarrow> nat \<times> nat \<times> nat" where
  "listOrder4 = (\<lambda>(host, value, schema, subSchemas, rest). (2 * size value + 1, size_list size subSchemas, 0))"

definition arrayOrder :: "'r \<times> jv \<times> jv \<times> nat \<times> 'i \<Rightarrow> nat \<times> nat \<times> nat" where
  "arrayOrder = (\<lambda>(host, value, schema, n, i). (2 * size value, length (items_of value) - n, 0))"

definition objectOrder :: "'r \<times> jv \<times> jv \<times> string list \<times> 'i \<Rightarrow> nat \<times> nat \<times> nat" where
  "objectOrder = (\<lambda>(host, value, schema, properties, i). (2 * size value, length properties, 0))"

definition validateOrder where
  "validateOrder =
     case_sum
       (case_sum
          (case_sum (schemaOrder 3) (case_sum (schemaOrder 2) (schemaOrder 2)))
          (case_sum (case_sum listOrder3 (schemaOrder 2)) (case_sum listOrder4 (schemaOrder 2))))
       (case_sum
          (case_sum (case_sum listOrder3 (schemaOrder 2)) (case_sum listOrder4 (schemaOrder 2)))
          (case_sum (case_sum (schemaOrder 1) arrayOrder) (case_sum (schemaOrder 1) objectOrder)))"


lemma validateOrder_simps:
  "validateOrder (Inl (Inl (Inl a))) = schemaOrder 3 a"
  "validateOrder (Inl (Inl (Inr (Inl a)))) = schemaOrder 2 a"
  "validateOrder (Inl (Inl (Inr (Inr a)))) = schemaOrder 2 a"
  "validateOrder (Inl (Inr (Inl (Inl b)))) = listOrder3 b"
  "validateOrder (Inl (Inr (Inl (Inr a)))) = schemaOrder 2 a"
  "validateOrder (Inl (Inr (Inr (Inl c)))) = listOrder4 c"
  "validateOrder (Inl (Inr (Inr (Inr a)))) = schemaOrder 2 a"
  "validateOrder (Inr (Inl (Inl (Inl d)))) = listOrder3 d"
  "validateOrder (Inr (Inl (Inl (Inr a)))) = schemaOrder 2 a"
  "validateOrder (Inr (Inl (Inr (Inl c)))) = listOrder4 c"
  "validateOrder (Inr (Inl (Inr (Inr a)))) = schemaOrder 2 a"
  "validateOrder (Inr (Inr (Inl (Inl a)))) = schemaOrder 1 a"
  "validateOrder (Inr (Inr (Inl (Inr e)))) = arrayOrder e"
  "validateOrder (Inr (Inr (Inr (Inl a)))) = schemaOrder 1 a"
  "validateOrder (Inr (Inr (Inr (Inr f)))) = objectOrder f"
  by (simp_all add: validateOrder_def)

lemma order_simps:
  "schemaOrder c (host, value, schema, i) = (2 * size value + 1, size schema, c)"
  "listOrder3 (host, value, subSchemas, rest) = (2 * size value + 1, size_list size subSchemas, 0)"
  "listOrder4 (host, value, schema, subSchemas, rest) = (2 * size value + 1, size_list size subSchemas, 0)"
  "arrayOrder (host, value, schema, n, i) = (2 * size value, length (items_of value) - n, 0)"
  "objectOrder (host, value, schema, properties, i) = (2 * size value, length properties, 0)"
  by (simp_all add: schemaOrder_def listOrder3_def listOrder4_def arrayOrder_def objectOrder_def)

lemma size_field_twice: "isObject v \<Longrightarrow> Suc (2 * size (field v k)) < 2 * size v"
  using size_field [of v k] by simp

lemma size_elem_twice: "n < length (items_of v) \<Longrightarrow> Suc (2 * size (elem v n)) < 2 * size v"
  using size_elem [of n v] by simp

termination validate
proof (relation "inv_image (less_than <*lex*> less_than <*lex*> less_than) validateOrder",
    goal_cases)
  case 1
  show ?case by (intro wf_inv_image wf_lex_prod wf_less_than)
next
  case (9 host "value" schema i x xa y xb xc xd)
  then have "isObject xd \<and> (xd = field schema ''then'' \<or> xd = field schema ''else'')"
    by (simp split: if_splits)
  then have "size xd < size schema"
    using size_field_schema by blast
  then show ?case
    by (simp only: in_inv_image validateOrder_simps order_simps) simp
qed (simp_all only: in_inv_image validateOrder_simps order_simps,
     simp_all add: size_field_twice size_field_schema size_items_field size_elem_twice)



declare validate.simps [simp del] validateConditional.simps [simp del]
  validateAllOf.simps [simp del] allOfLoop.simps [simp del]
  validateAnyOf.simps [simp del] anyOfLoop.simps [simp del]
  validateOneOf.simps [simp del] oneOfLoop.simps [simp del]
  validateNoneOf.simps [simp del] noneOfLoop.simps [simp del]
  validateSingleSchema.simps [simp del] validateArray.simps [simp del]
  arrayLoop.simps [simp del] validateObject.simps [simp del] objectLoop.simps [simp del]

text \<open>\<open>JsonSchema.validate(value, schema)\<close>.\<close>

definition JsonSchema_validate :: "host \<Rightarrow> jv \<Rightarrow> jv \<Rightarrow> outcome" where
  "JsonSchema_validate host value schema = validate host value schema (newInfo value schema)"

text \<open>A host for the examples, none of which uses a pattern, a \<open>multipleOf\<close>, a property
  key other than a string or a small index, or an index of more than a few digits: it
  compiles no pattern, computes exactly, converts strings and natural numbers to
  property names as JavaScript does (and everything else to the empty name), and reads
  digits exactly.\<close>

fun exactFloorMultiple :: "jv \<Rightarrow> jv \<Rightarrow> jv" where
  "exactFloorMultiple (JNum x) (JNum m) = (if m = 0 then JNaN else JNum (of_int \<lfloor>x / m\<rfloor> * m))"
| "exactFloorMultiple _ _ = JNaN"

fun plainKey :: "jv \<Rightarrow> string" where
  "plainKey (JStr s) = s"
| "plainKey (JNum x) = (if x = of_nat (nat \<lfloor>x\<rfloor>) then showNat (nat \<lfloor>x\<rfloor>) else [])"
| "plainKey v = []"

definition decimal :: "string \<Rightarrow> nat" where
  "decimal s = foldl (\<lambda>n c. 10 * n + (of_char c - 48)) 0 s"

definition plainHost :: host where
  "plainHost =
     \<lparr>regExp = (\<lambda>pattern flags. None), floorMultiple = exactFloorMultiple,
      toPropertyKey = plainKey, parseInt = decimal\<rparr>"

section \<open>The type check\<close>











section \<open>The count of properties\<close>

definition emptyObject :: jv where
  "emptyObject = JObj (Ref 10) []"

definition twoProperties :: jv where
  "twoProperties = JObj (Ref 11) [(''a'', JNum 1), (''b'', JNum 2)]"

definition minOneProperty :: jv where
  "minOneProperty = JObj (Ref 0) [(''type'', JStr ''object''), (''minProperties'', JNum 1)]"

definition maxOneProperty :: jv where
  "maxOneProperty = JObj (Ref 0) [(''type'', JStr ''object''), (''maxProperties'', JNum 1)]"

text \<open>
  C3. \<open>validateObject\<close> compares \<open>properties.length\<close> with the bounds, and \<open>properties\<close> is
  a \<open>Set\<close>: the comparisons are with \<open>undefined\<close> and never hold. An object with no
  property validates under \<open>minProperties: 1\<close>, and one with two properties under
  \<open>maxProperties: 1\<close>.
\<close>

theorem property_count_not_checked:
  "JsonSchema_validate plainHost emptyObject minOneProperty =
     (None, newInfo emptyObject minOneProperty) \<and>
   JsonSchema_validate plainHost twoProperties maxOneProperty =
     (None, newInfo twoProperties maxOneProperty)"
  by code_simp

section \<open>The constant check\<close>














section \<open>The traversal information after a call\<close>

definition anyOfSchema :: jv where
  "anyOfSchema = JObj (Ref 0) [(''anyOf'', JArr (Ref 1) [JObj (Ref 2) []])]"

definition ifSchema :: jv where
  "ifSchema = JObj (Ref 0)
     [(''if'', JObj (Ref 1) [(''allOf'', JArr (Ref 2) [JObj (Ref 3) [(''type'', JStr ''string'')]])])]"

text \<open>
  C5. The pushes and pops are not balanced. \<open>validateAnyOf\<close> returns from inside its loop
  at the first match, before either pop: a successful \<open>validate\<close> of \<open>1\<close> under
  \<open>{anyOf: [{}]}\<close> leaves three entries on the schema path, which started with one. A
  failure raised two pushes deep and caught by \<open>validateConditional\<close> is followed by one
  pop: a successful \<open>validate\<close> of \<open>1\<close> under \<open>{if: {allOf: [{type: "string"}]}}\<close> leaves
  three entries too.
\<close>

theorem paths_left_unbalanced:
  "fst (JsonSchema_validate plainHost (JNum 1) anyOfSchema) = None \<and>
   length (schemaPath (newInfo (JNum 1) anyOfSchema)) = 1 \<and>
   length (schemaPath (snd (JsonSchema_validate plainHost (JNum 1) anyOfSchema))) = 3 \<and>
   fst (JsonSchema_validate plainHost (JNum 1) ifSchema) = None \<and>
   length (schemaPath (snd (JsonSchema_validate plainHost (JNum 1) ifSchema))) = 3"
  by code_simp


section \<open>The outcome does not depend on the traversal information\<close>

text \<open>The traversal information is only recorded: whether a call raises, and what, is the
  same from every state of the two paths. The proof follows the recursion of the
  validator.\<close>

lemmas validate_induct = validate_validateConditional_validateAllOf_allOfLoop_validateAnyOf_anyOfLoop_validateOneOf_oneOfLoop_validateNoneOf_noneOfLoop_validateSingleSchema_validateArray_arrayLoop_validateObject_objectLoop.induct

lemma andThen_fst_cong:
  "fst a = fst b \<Longrightarrow> (\<And>i j. fst (f i) = fst (g j)) \<Longrightarrow> fst (andThen a f) = fst (andThen b g)"
  by (cases a; cases b) (auto simp: andThen_def split: option.splits)

lemma fst_raise: "fst (raise m v s i) = Some (JsonSchemaValidationError m v s)"
  by (simp add: raise_def)

lemma fst_validateNumber: "fst (validateNumber host v s i) = fst (validateNumber host v s j)"
  by (simp add: validateNumber_def Let_def fst_raise)

lemma fst_validateString: "fst (validateString host v s i) = fst (validateString host v s j)"
  by (simp add: validateString_def Let_def fst_raise split: option.splits)

lemma info_independent:
  "\<forall>j. fst (validate host v s i) = fst (validate host v s j)"
proof (rule validate_induct [where
      ?P1.0 = "\<lambda>host v s i. \<forall>j. fst (validate host v s i) = fst (validate host v s j)"
      and ?P2.0 = "\<lambda>host v s i. \<forall>j. fst (validateConditional host v s i) = fst (validateConditional host v s j)"
      and ?P3.0 = "\<lambda>host v s i. \<forall>j. fst (validateAllOf host v s i) = fst (validateAllOf host v s j)"
      and ?P4.0 = "\<lambda>host v subs n i. \<forall>j. fst (allOfLoop host v subs n i) = fst (allOfLoop host v subs n j)"
      and ?P5.0 = "\<lambda>host v s i. \<forall>j. fst (validateAnyOf host v s i) = fst (validateAnyOf host v s j)"
      and ?P6.0 = "\<lambda>host v s subs n i. \<forall>j. fst (anyOfLoop host v s subs n i) = fst (anyOfLoop host v s subs n j)"
      and ?P7.0 = "\<lambda>host v s i. \<forall>j. fst (validateOneOf host v s i) = fst (validateOneOf host v s j)"
      and ?P8.0 = "\<lambda>host v subs n c i. \<forall>j. fst (oneOfLoop host v subs n c i) = fst (oneOfLoop host v subs n c j)"
      and ?P9.0 = "\<lambda>host v s i. \<forall>j. fst (validateNoneOf host v s i) = fst (validateNoneOf host v s j)"
      and ?P10.0 = "\<lambda>host v s subs n i. \<forall>j. fst (noneOfLoop host v s subs n i) = fst (noneOfLoop host v s subs n j)"
      and ?P11.0 = "\<lambda>host v s i. \<forall>j. fst (validateSingleSchema host v s i) = fst (validateSingleSchema host v s j)"
      and ?P12.0 = "\<lambda>host v s i. \<forall>j. fst (validateArray host v s i) = fst (validateArray host v s j)"
      and ?P13.0 = "\<lambda>host v s n i. \<forall>j. fst (arrayLoop host v s n i) = fst (arrayLoop host v s n j)"
      and ?P14.0 = "\<lambda>host v s i. \<forall>j. fst (validateObject host v s i) = fst (validateObject host v s j)"
      and ?P15.0 = "\<lambda>host v s ps i. \<forall>j. fst (objectLoop host v s ps i) = fst (objectLoop host v s ps j)"],
    goal_cases)
  case (1 host v s i)
  show ?case
  proof (cases "s = JNull \<or> s = JUndef")
    case True
    then show ?thesis
      by (auto simp: validate.simps)
  next
    case False
    note ih = 1(1) [OF False] 1(2) [OF False] 1(3) [OF False] 1(4) [OF False]
      1(5) [OF False] 1(6) [OF False]
    show ?thesis
    proof
      fix j
      have single: "fst (validateSingleSchema host v s i) = fst (validateSingleSchema host v s j)"
        using ih(1) by blast
      have t1: "fst (validateConditional host v s i) = fst (validateConditional host v s j)"
        using ih(2) by blast
      have t2: "\<And>a b. fst (validateConditional host v s a) = fst (validateConditional host v s b)"
        using ih(2) by blast
      have t3: "fst (validateConditional host v s a) = fst (validateConditional host v s b)" for a b :: info
        using ih(2) by blast
      have r2: "fst (validateConditional host v s a) = fst (validateConditional host v s b)" for a b
        by (rule ih(2) [rule_format])
      have r3: "fst (validateAllOf host v s a) = fst (validateAllOf host v s b)" for a b
        by (rule ih(3) [rule_format])
      have r4: "fst (validateAnyOf host v s a) = fst (validateAnyOf host v s b)" for a b
        by (rule ih(4) [rule_format])
      have r5: "fst (validateOneOf host v s a) = fst (validateOneOf host v s b)" for a b
        by (rule ih(5) [rule_format])
      have r6: "fst (validateNoneOf host v s a) = fst (validateNoneOf host v s b)" for a b
        by (rule ih(6) [rule_format])
      show "fst (validate host v s i) = fst (validate host v s j)"
        unfolding validate.simps [of host v s i] validate.simps [of host v s j]
        using False by (simp add: single r2 r3 r4 r5 r6 andThen_fst_cong)
    qed
  qed
next
  case (2 host v s i)
  show ?case
  proof
    fix j
    show "fst (validateConditional host v s i) = fst (validateConditional host v s j)"
    proof (cases "isObject (field s ''if'')")
      case False
      then show ?thesis
        by (simp add: validateConditional.simps [of host v s i] validateConditional.simps [of host v s j])
    next
      case True
      obtain r1 i1 where a: "validate host v (field s ''if'') (schemaPush (JStr ''if'') (field s ''if'') i) = (r1, i1)"
        by (cases "validate host v (field s ''if'') (schemaPush (JStr ''if'') (field s ''if'') i)")
      obtain r2 i2 where b: "validate host v (field s ''if'') (schemaPush (JStr ''if'') (field s ''if'') j) = (r2, i2)"
        by (cases "validate host v (field s ''if'') (schemaPush (JStr ''if'') (field s ''if'') j)")
      have r: "r1 = r2"
        using 2(1) [OF refl, of ] True a b by (metis fst_conv)
      show ?thesis
        unfolding validateConditional.simps [of host v s i] validateConditional.simps [of host v s j]
        using True a b r 2(2) [OF refl _ a [symmetric] refl refl refl]
        by (auto simp: Let_def intro!: andThen_fst_cong)
    qed
  qed
next
  case (3 host v s i)
  then show ?case
    by (auto simp: validateAllOf.simps [of host v s] Let_def intro!: andThen_fst_cong)
next
  case (4 host v n i)
  then show ?case by (simp add: allOfLoop.simps)
next
  case (5 host v subSchema rest n i)
  show ?case
    unfolding allOfLoop.simps
    by (intro allI andThen_fst_cong 5(1) [rule_format] 5(2) [rule_format])
next
  case (6 host v s i)
  show ?case
  proof (cases "isArray (field s ''anyOf'')")
    case True
    show ?thesis
      unfolding validateAnyOf.simps [of host v s] Let_def
      using True by (simp add: 6 [OF refl, simplified, OF True, rule_format])
  next
    case False
    then show ?thesis
      by (simp add: validateAnyOf.simps [of host v s])
  qed
next
  case (7 host v s n i)
  then show ?case by (simp add: anyOfLoop.simps fst_raise)
next
  case (8 host v s subSchema rest n i)
  show ?case
  proof
    fix j
    obtain r1 i1 where a: "validate host v subSchema (schemaPush (JNum (of_nat n)) subSchema i) = (r1, i1)"
      by (cases "validate host v subSchema (schemaPush (JNum (of_nat n)) subSchema i)")
    obtain r2 i2 where b: "validate host v subSchema (schemaPush (JNum (of_nat n)) subSchema j) = (r2, i2)"
      by (cases "validate host v subSchema (schemaPush (JNum (of_nat n)) subSchema j)")
    have r: "r2 = r1"
      using 8(1) [rule_format, of "schemaPush (JNum (of_nat n)) subSchema j"] a b by simp
    show "fst (anyOfLoop host v s (subSchema # rest) n i) = fst (anyOfLoop host v s (subSchema # rest) n j)"
    proof (cases r1)
      case None
      then show ?thesis
        by (simp add: anyOfLoop.simps a b r)
    next
      case (Some e)
      have "fst (anyOfLoop host v s rest (Suc n) (schemaPop i1)) =
          fst (anyOfLoop host v s rest (Suc n) (schemaPop i2))"
        by (rule 8(2) [OF a [symmetric] Some, rule_format])
      then show ?thesis
        by (simp add: anyOfLoop.simps a b r Some)
    qed
  qed
next
  case (9 host v s i)
  show ?case
  proof (cases "isArray (field s ''oneOf'')")
    case True
    have "fst (oneOfLoop host v (items_of (field s ''oneOf'')) 0 0 (schemaPush (JStr ''oneOf'') (field s ''oneOf'') i)) =
        fst (oneOfLoop host v (items_of (field s ''oneOf'')) 0 0 (schemaPush (JStr ''oneOf'') (field s ''oneOf'') j))" for j
      by (rule 9 [OF refl, simplified, OF True, rule_format])
    then show ?thesis
      unfolding validateOneOf.simps [of host v s] Let_def
      using True by (simp add: fst_raise split: prod.splits) (metis fst_conv)
  next
    case False
    then show ?thesis
      by (simp add: validateOneOf.simps [of host v s])
  qed
next
  case (10 host v n c i)
  then show ?case by (simp add: oneOfLoop.simps)
next
  case (11 host v subSchema rest n c i)
  show ?case
  proof
    fix j
    obtain r1 i1 where a: "validate host v subSchema (schemaPush (JNum (of_nat n)) subSchema i) = (r1, i1)"
      by (cases "validate host v subSchema (schemaPush (JNum (of_nat n)) subSchema i)")
    obtain r2 i2 where b: "validate host v subSchema (schemaPush (JNum (of_nat n)) subSchema j) = (r2, i2)"
      by (cases "validate host v subSchema (schemaPush (JNum (of_nat n)) subSchema j)")
    have r: "r2 = r1"
      using 11(1) [rule_format, of "schemaPush (JNum (of_nat n)) subSchema j"] a b by simp
    show "fst (oneOfLoop host v (subSchema # rest) n c i) = fst (oneOfLoop host v (subSchema # rest) n c j)"
    proof (cases r1)
      case None
      have "fst (oneOfLoop host v rest (Suc n) (Suc c) (schemaPop i1)) =
          fst (oneOfLoop host v rest (Suc n) (Suc c) (schemaPop i2))"
        by (rule 11(2) [OF a [symmetric] None, rule_format])
      then show ?thesis
        by (simp add: oneOfLoop.simps a b r None)
    next
      case (Some e)
      have "fst (oneOfLoop host v rest (Suc n) c (schemaPop i1)) =
          fst (oneOfLoop host v rest (Suc n) c (schemaPop i2))"
        by (rule 11(3) [OF a [symmetric] Some, rule_format])
      then show ?thesis
        by (simp add: oneOfLoop.simps a b r Some)
    qed
  qed
next
  case (12 host v s i)
  show ?case
  proof (cases "isArray (field s ''not'')")
    case True
    show ?thesis
      unfolding validateNoneOf.simps [of host v s] Let_def
      using True
      by (simp, intro allI andThen_fst_cong 12 [OF refl, simplified, OF True, rule_format], simp)
  next
    case False
    then show ?thesis
      by (simp add: validateNoneOf.simps [of host v s])
  qed
next
  case (13 host v s n i)
  then show ?case by (simp add: noneOfLoop.simps)
next
  case (14 host v s subSchema rest n i)
  show ?case
  proof
    fix j
    obtain r1 i1 where a: "validate host v subSchema (schemaPush (JNum (of_nat n)) subSchema i) = (r1, i1)"
      by (cases "validate host v subSchema (schemaPush (JNum (of_nat n)) subSchema i)")
    obtain r2 i2 where b: "validate host v subSchema (schemaPush (JNum (of_nat n)) subSchema j) = (r2, i2)"
      by (cases "validate host v subSchema (schemaPush (JNum (of_nat n)) subSchema j)")
    have r: "r2 = r1"
      using 14(1) [rule_format, of "schemaPush (JNum (of_nat n)) subSchema j"] a b by simp
    show "fst (noneOfLoop host v s (subSchema # rest) n i) = fst (noneOfLoop host v s (subSchema # rest) n j)"
    proof (cases r1)
      case None
      then show ?thesis
        by (simp add: noneOfLoop.simps a b r fst_raise)
    next
      case (Some e)
      have "fst (noneOfLoop host v s rest (Suc n) (schemaPop i1)) =
          fst (noneOfLoop host v s rest (Suc n) (schemaPop i2))"
        by (rule 14(2) [OF a [symmetric] Some, rule_format])
      then show ?thesis
        by (simp add: noneOfLoop.simps a b r Some)
    qed
  qed
next
  case (15 host v s i)
  show ?case
  proof
    fix j
    have arr: "fst (validateArray host v s i) = fst (validateArray host v s j)"
      if "isValueTypeAny v (getValueType v) (field s ''type'')"
        "\<not> (field s ''const'' \<noteq> JUndef \<and> \<not> valuesAreEqual v (field s ''const''))"
        "\<not> (isArray (field s ''enum'') \<and> \<not> valuesAreEqualAny v (items_of (field s ''enum'')))"
        "getValueType v = ''array''"
      using that by (intro 15(1) [OF refl refl refl refl, rule_format]) simp_all
    have obj: "fst (validateObject host v s i) = fst (validateObject host v s j)"
      if "isValueTypeAny v (getValueType v) (field s ''type'')"
        "\<not> (field s ''const'' \<noteq> JUndef \<and> \<not> valuesAreEqual v (field s ''const''))"
        "\<not> (isArray (field s ''enum'') \<and> \<not> valuesAreEqualAny v (items_of (field s ''enum'')))"
        "getValueType v = ''object''"
      using that by (intro 15(2) [OF refl refl refl refl, rule_format]) simp_all
    show "fst (validateSingleSchema host v s i) = fst (validateSingleSchema host v s j)"
      unfolding validateSingleSchema.simps [of host v s] Let_def
      using arr obj fst_validateNumber [of host v s i j] fst_validateString [of host v s i j]
      by (simp add: fst_raise)
  qed
next
  case (16 host v s i)
  show ?case
  proof
    fix j
    have loop: "fst (arrayLoop host v s 0 i) = fst (arrayLoop host v s 0 j)"
      if "\<not> (isNumber (field s ''minItems'') \<and> jsLess (lengthOf v) (field s ''minItems''))"
        "\<not> (isNumber (field s ''maxItems'') \<and> jsLess (field s ''maxItems'') (lengthOf v))"
      using that by (intro 16 [OF refl refl, rule_format]) simp_all
    show "fst (validateArray host v s i) = fst (validateArray host v s j)"
      unfolding validateArray.simps [of host v s] Let_def
      using loop by (simp add: fst_raise)
  qed
next
  case (17 host v s n i)
  show ?case
  proof
    fix j
    show "fst (arrayLoop host v s n i) = fst (arrayLoop host v s n j)"
    proof (cases "n < length (items_of v)")
      case False
      then show ?thesis
        by (simp add: arrayLoop.simps [of host v s n])
    next
      case True
      show ?thesis
      proof (cases "getPropertySchema host s (PIndex n) v")
        case (Inl e)
        then show ?thesis
          by (simp add: arrayLoop.simps [of host v s n] True)
      next
        case (Inr found)
        obtain ps path where g: "(ps, path) = found"
          by (cases found) simp
        show ?thesis
        proof (cases ps)
          case None
          then show ?thesis
            using g by (simp add: arrayLoop.simps [of host v s n] True Inr g [symmetric] fst_raise)
        next
          case (Some x2)
          show ?thesis
            unfolding arrayLoop.simps [of host v s n]
            by (simp add: True Inr g [symmetric] Some,
                intro andThen_fst_cong 17(1) [OF True Inr g Some, rule_format]
                  17(2) [OF True Inr g Some, rule_format])
        qed
      qed
    qed
  qed
next
  case (18 host v s i)
  show ?case
  proof
    fix j
    have loop: "fst (objectLoop host v s (ownPropertyNames v) i) = fst (objectLoop host v s (ownPropertyNames v) j)"
      if "(if isArray (field s ''required'')
            then find (\<lambda>property. \<not> hasProperty (ownPropertyNames v) property) (items_of (field s ''required''))
            else None) = None"
        "\<not> (isNumber (field s ''minProperties'') \<and> jsLess (setLength (ownPropertyNames v)) (field s ''minProperties''))"
        "\<not> (isNumber (field s ''maxProperties'') \<and> jsLess (field s ''maxProperties'') (setLength (ownPropertyNames v)))"
      using that by (intro 18 [OF refl refl refl refl, rule_format]) simp_all
    show "fst (validateObject host v s i) = fst (validateObject host v s j)"
    proof (cases "if isArray (field s ''required'')
            then find (\<lambda>property. \<not> hasProperty (ownPropertyNames v) property) (items_of (field s ''required''))
            else None")
      case (Some property)
      show ?thesis
        unfolding validateObject.simps [of host v s] Let_def Some
        by (simp add: fst_raise)
    next
      case None
      show ?thesis
      proof (cases "isNumber (field s ''minProperties'') \<and> jsLess (setLength (ownPropertyNames v)) (field s ''minProperties'')")
        case True
        show ?thesis
          unfolding validateObject.simps [of host v s] Let_def None
          using True by (auto simp: fst_raise)
      next
        case min: False
        show ?thesis
        proof (cases "isNumber (field s ''maxProperties'') \<and> jsLess (field s ''maxProperties'') (setLength (ownPropertyNames v))")
          case True
          show ?thesis
            unfolding validateObject.simps [of host v s] Let_def None
            using True min by (auto simp: fst_raise)
        next
          case False
          show ?thesis
            unfolding validateObject.simps [of host v s] Let_def None
            using False min loop [OF None min False] by (auto simp: fst_raise)
        qed
      qed
    qed
  qed
next
  case (19 host v s i)
  then show ?case by (simp add: objectLoop.simps)
next
  case (20 host v s property rest i)
  show ?case
  proof
    fix j
    show "fst (objectLoop host v s (property # rest) i) = fst (objectLoop host v s (property # rest) j)"
    proof (cases "isObject v")
      case False
      then show ?thesis
        by (simp add: objectLoop.simps)
    next
      case True
      show ?thesis
      proof (cases "getPropertySchema host s (PName property) v")
        case (Inl e)
        then show ?thesis
          by (simp add: objectLoop.simps True)
      next
        case (Inr found)
        obtain ps path where g: "(ps, path) = found"
          by (cases found) simp
        show ?thesis
        proof (cases ps)
          case None
          then show ?thesis
            by (simp add: objectLoop.simps True Inr g [symmetric] fst_raise)
        next
          case (Some x2)
          show ?thesis
            unfolding objectLoop.simps
            by (simp add: True Inr g [symmetric] Some,
                intro andThen_fst_cong 20(1) [OF True Inr g Some, rule_format]
                  20(2) [OF True Inr g Some, rule_format])
        qed
      qed
    qed
  qed
qed

lemma validate_fst: "fst (validate host v s i) = fst (validate host v s j)"
  using info_independent by blast

lemma oneOfLoop_count:
  "fst (oneOfLoop host v subs n c i) = c + length (filter (\<lambda>sub. fst (validate host v sub i0) = None) subs)"
proof (induction subs arbitrary: n c i)
  case Nil
  then show ?case by (simp add: oneOfLoop.simps)
next
  case (Cons sub rest)
  obtain r1 i1 where a: "validate host v sub (schemaPush (JNum (of_nat n)) sub i) = (r1, i1)"
    by (cases "validate host v sub (schemaPush (JNum (of_nat n)) sub i)")
  have r: "fst (validate host v sub i0) = r1"
    using validate_fst [of host v sub i0 "schemaPush (JNum (of_nat n)) sub i"] a by simp
  show ?case
    by (cases r1) (simp_all add: oneOfLoop.simps a r Cons.IH)
qed


section \<open>Exactly one of the listed schemas\<close>

text \<open>A value is accepted by a schema when \<open>JsonSchema.validate\<close> returns; \<open>matchCount\<close> is
  the number of listed sub-schemas that accept the value, every one of them counted.\<close>

definition accepts :: "host \<Rightarrow> jv \<Rightarrow> jv \<Rightarrow> bool" where
  "accepts host value schema = (fst (JsonSchema_validate host value schema) = None)"

definition matchCount :: "host \<Rightarrow> jv \<Rightarrow> jv list \<Rightarrow> nat" where
  "matchCount host value subSchemas = length (filter (accepts host value) subSchemas)"

definition numberOrInteger :: jv where
  "numberOrInteger = JObj (Ref 0)
     [(''oneOf'', JArr (Ref 1) [JObj (Ref 2) [(''type'', JStr ''number'')],
                               JObj (Ref 3) [(''type'', JStr ''integer'')],
                               JObj (Ref 4) [(''type'', JStr ''string'')]])]"

lemma oneOfLoop_matchCount:
  "fst (oneOfLoop host v subs n c i) = c + matchCount host v subs"
proof -
  have "accepts host v sub = (fst (validate host v sub i) = None)" for sub
    unfolding accepts_def JsonSchema_validate_def
    using validate_fst [of host v sub "newInfo v sub" i] by simp
  then have "accepts host v = (\<lambda>sub. fst (validate host v sub i) = None)"
    by (intro ext)
  then show ?thesis
    by (simp add: matchCount_def oneOfLoop_count [of host v subs n c i i])
qed

lemma validateOneOf_fst:
  "fst (validateOneOf host v s i) =
     (if isArray (field s ''oneOf'') \<and> matchCount host v (items_of (field s ''oneOf'')) \<noteq> 1
      then Some (JsonSchemaValidationError (OneOfMatched (matchCount host v (items_of (field s ''oneOf'')))) v s)
      else None)"
proof (cases "isArray (field s ''oneOf'')")
  case False
  then show ?thesis by (simp add: validateOneOf.simps)
next
  case True
  obtain c i1 where l: "oneOfLoop host v (items_of (field s ''oneOf'')) 0 0
      (schemaPush (JStr ''oneOf'') (field s ''oneOf'') i) = (c, i1)"
    by (cases "oneOfLoop host v (items_of (field s ''oneOf'')) 0 0
      (schemaPush (JStr ''oneOf'') (field s ''oneOf'') i)")
  have "c = matchCount host v (items_of (field s ''oneOf''))"
    using oneOfLoop_matchCount [of host v "items_of (field s ''oneOf'')" 0 0
        "schemaPush (JStr ''oneOf'') (field s ''oneOf'') i"] l by simp
  then show ?thesis
    using True l by (simp add: validateOneOf.simps Let_def raise_def)
qed

lemma andThen_fst_None:
  "fst (andThen r f) = None \<longleftrightarrow> fst r = None \<and> fst (f (snd r)) = None"
  by (cases r) (auto simp: andThen_def split: option.splits)

lemma validate_accepts_oneOf:
  assumes "fst (validate host v s i) = None"
  shows "\<exists>i'. fst (validateOneOf host v s i') = None"
  using assms by (auto simp: validate.simps andThen_fst_None split: if_splits)

text \<open>
  C7. When \<open>schema.oneOf\<close> is a list, \<open>validateOneOf\<close> returns exactly when the number of
  listed sub-schemas that accept the value, counted over the whole list, is one, and
  raises the error that reports that number otherwise; so \<open>validate\<close> can only return
  when the number is one.
\<close>

theorem one_of_counts:
  "isArray (field schema ''oneOf'') \<longrightarrow>
     fst (validateOneOf host value schema i) =
       (if matchCount host value (items_of (field schema ''oneOf'')) = 1 then None
        else Some (JsonSchemaValidationError
               (OneOfMatched (matchCount host value (items_of (field schema ''oneOf'')))) value schema)) \<and>
     (fst (validate host value schema i) = None \<longrightarrow>
        matchCount host value (items_of (field schema ''oneOf'')) = 1)"
proof (intro impI conjI)
  assume a: "isArray (field schema ''oneOf'')"
  show "fst (validateOneOf host value schema i) =
       (if matchCount host value (items_of (field schema ''oneOf'')) = 1 then None
        else Some (JsonSchemaValidationError
               (OneOfMatched (matchCount host value (items_of (field schema ''oneOf'')))) value schema))"
    using a by (simp add: validateOneOf_fst)
  assume "fst (validate host value schema i) = None"
  then obtain i' where "fst (validateOneOf host value schema i') = None"
    using validate_accepts_oneOf by blast
  then show "matchCount host value (items_of (field schema ''oneOf'')) = 1"
    using a by (simp add: validateOneOf_fst split: if_splits)
qed

theorem one_of_counts_witness:
  "isArray (field numberOrInteger ''oneOf'') \<and>
   matchCount plainHost (JNum 1) (items_of (field numberOrInteger ''oneOf'')) = 2 \<and>
   fst (validateOneOf plainHost (JNum 1) numberOrInteger (newInfo (JNum 1) numberOrInteger)) =
     Some (JsonSchemaValidationError (OneOfMatched 2) (JNum 1) numberOrInteger)"
proof -
  have h: "isArray (field numberOrInteger ''oneOf'')"
    by code_simp
  have c: "matchCount plainHost (JNum 1) (items_of (field numberOrInteger ''oneOf'')) = 2"
    by code_simp
  show ?thesis
    using h c one_of_counts [of numberOrInteger plainHost "JNum 1" "newInfo (JNum 1) numberOrInteger"]
    by simp
qed


section \<open>Default values\<close>


text \<open>Modelled from the spec: \<open>clone\<close> is a global function that \<open>JsonSchema.clone\<close> calls and
  that is not among the sources. The specification calls it a deep structural copy: the
  same values in new containers. The new container takes the reference \<open>Copy r\<close>, which
  no container of the original has.\<close>

fun clone :: "jv \<Rightarrow> jv" where
  "clone (JArr r xs) = JArr (Copy r) (map clone xs)"
| "clone (JObj r kvs) = JObj (Copy r) (map (\<lambda>(k, v). (k, clone v)) kvs)"
| "clone v = v"

text \<open>\<open>value[k] = x\<close>, \<open>delete value[k]\<close> and \<open>value[i] = x\<close> on the object or array itself:
  a new property goes last, and the container keeps its reference. (An assignment under
  \<open>__proto__\<close> to an object that has no own property of that name does not make one; the
  callers test for that.)\<close>

fun assign :: "(string \<times> jv) list \<Rightarrow> string \<Rightarrow> jv \<Rightarrow> (string \<times> jv) list" where
  "assign [] k x = [(k, x)]"
| "assign ((k', v) # kvs) k x = (if k' = k then (k, x) # kvs else (k', v) # assign kvs k x)"

fun setField :: "jv \<Rightarrow> string \<Rightarrow> jv \<Rightarrow> jv" where
  "setField (JObj r kvs) k x = JObj r (assign kvs k x)"
| "setField v k x = v"



text \<open>Where the code would write to the prototype of an object: \<open>value['__proto__'] = x\<close>
  on an object that has no own property of that name calls the setter it inherits, which
  replaces the prototype of the object; and populating \<open>Object.prototype\<close> itself changes
  what every object inherits.\<close>

definition setsPrototype :: "jv \<Rightarrow> string \<Rightarrow> bool" where
  "setsPrototype object name =
     (name = ''__proto__'' \<and> name \<notin> set (ownPropertyNames object))"




text \<open>Termination: a schema without the fields that the methods read is inert: under it
  no default is substituted and every property resolves to the unconstrained schema, so
  the recursion descends into the value. Under any other schema a resolved property
  schema is inert or a proper part of the schema.\<close>

definition inert :: "jv \<Rightarrow> bool" where
  "inert s =
     (field s ''type'' = JUndef \<and> field s ''required'' = JUndef \<and>
      field s ''properties'' = JUndef \<and> field s ''additionalProperties'' = JUndef \<and>
      field s ''items'' = JUndef \<and> field s ''additionalItems'' = JUndef)"
































lemma inert_chosen:
  "inert schema \<Longrightarrow>
     (if isValueTypeAny value (getValueType value) (field schema ''type'') then value
      else other) = value"
  by (simp add: inert_def)





section \<open>The type of a repaired value\<close>










subsection \<open>Objects and arrays under assignment\<close>




















lemma isObject_not_null: "isObject ps \<Longrightarrow> ps \<noteq> JNull \<and> ps \<noteq> JUndef"
  by auto

subsection \<open>What each method establishes\<close>































subsection \<open>When the repair stays away from prototypes\<close>

































section \<open>The proxy handler\<close>

text \<open>A property key of a proxy operation: a string or a symbol. An array index arrives
  as the string of its digits.\<close>

datatype proxyKey = KString string | KSymbol nat

text \<open>\<open>/^\\d+$/.test(property)\<close>.\<close>

definition isDigits :: "string \<Rightarrow> bool" where
  "isDigits s = (s \<noteq> [] \<and> list_all (\<lambda>c. c \<in> set ''0123456789'') s)"

text \<open>What the handlers raise and return. \<open>Raised e\<close> is an exception of the validator,
  passed on. \<open>Direct key\<close> is the value of \<open>target[key]\<close> itself, as the target gives it;
  \<open>Wrapped value schema\<close> is \<open>JsonSchema.createProxy(value, schema)\<close>.
  \<open>AssignedUnchecked name value\<close> is the assignment \<open>target[name] = value\<close> to an array
  under a name that is no index, made with the caller's own value.
  \<open>PrototypeAssigned value\<close> is the assignment \<open>target['__proto__'] = value\<close> to an object
  that has no own property of that name: it calls the setter that the object inherits,
  which makes an object or \<open>null\<close> the prototype of the target and ignores any other
  value; no property is stored.\<close>

datatype proxyError =
    IndexOutOfRange
  | PropertyNotSupported pkey
  | Raised error

datatype getResult = Plain jv | Wrapped jv jv | Direct proxyKey | GetRaised error

datatype setResult =
    Stored jv
  | AssignedUnchecked string jv
  | PrototypeAssigned jv
  | Threw proxyError

text \<open>\<open>target[property]\<close>, read and written, for a name of an object or an index of an
  array.\<close>

fun fetch :: "jv \<Rightarrow> pkey \<Rightarrow> jv" where
  "fetch target (PName name) = propertyOf target name"
| "fetch target (PIndex n) = elem target n"

fun assignElem :: "jv \<Rightarrow> nat \<Rightarrow> jv \<Rightarrow> jv" where
  "assignElem (JArr r xs) n x =
     JArr r (if n < length xs then xs[n := x] else xs @ replicate (n - length xs) JUndef @ [x])"
| "assignElem v n x = v"

fun store :: "jv \<Rightarrow> pkey \<Rightarrow> jv \<Rightarrow> jv" where
  "store target (PName name) x = setField target name x"
| "store target (PIndex n) x = assignElem target n x"

fun writesPrototype :: "jv \<Rightarrow> pkey \<Rightarrow> bool" where
  "writesPrototype target (PName name) = setsPrototype target name"
| "writesPrototype target (PIndex n) = False"

definition assignProperty :: "jv \<Rightarrow> pkey \<Rightarrow> jv \<Rightarrow> setResult" where
  "assignProperty target k x =
     (if writesPrototype target k then PrototypeAssigned x else Stored (store target k x))"

text \<open>\<open>JsonSchemaProxyHandler.get\<close>.\<close>

definition handlerGet :: "host \<Rightarrow> jv \<Rightarrow> jv \<Rightarrow> proxyKey \<Rightarrow> getResult" where
  "handlerGet host schema target key =
     (case key of
        KSymbol s \<Rightarrow> Direct key
      | KString property \<Rightarrow>
          if isArray target \<and> \<not> isDigits property then Direct key
          else
            (let k = (if isArray target then PIndex (parseInt host property) else PName property) in
             case getPropertySchema host schema k target of
               Inl e \<Rightarrow> GetRaised e
             | Inr (None, path) \<Rightarrow> Plain JUndef
             | Inr (Some propertySchema, path) \<Rightarrow>
                 (let value = fetch target k in
                  if isObject value \<or> isArray value then Wrapped value propertySchema
                  else Plain value)))"

text \<open>\<open>JsonSchemaProxyHandler.set\<close>, for a string key; \<open>checkedStore\<close> is the part of it
  after the test for arrays.\<close>

definition checkedStore :: "host \<Rightarrow> jv \<Rightarrow> jv \<Rightarrow> pkey \<Rightarrow> jv \<Rightarrow> setResult" where
  "checkedStore host schema target k value =
     (case getPropertySchema host schema k target of
        Inl e \<Rightarrow> Threw (Raised e)
      | Inr (None, path) \<Rightarrow> Threw (PropertyNotSupported k)
      | Inr (Some propertySchema, path) \<Rightarrow>
          (let value' = clone value in
           case fst (validate host value' propertySchema (newInfo value' propertySchema)) of
             Some e \<Rightarrow> Threw (Raised e)
           | None \<Rightarrow> assignProperty target k value'))"

definition handlerSet :: "host \<Rightarrow> jv \<Rightarrow> jv \<Rightarrow> string \<Rightarrow> jv \<Rightarrow> setResult" where
  "handlerSet host schema target property value =
     (if isArray target then
        (if isDigits property then
           (if length (items_of target) < parseInt host property then Threw IndexOutOfRange
            else checkedStore host schema target (PIndex (parseInt host property)) value)
         else AssignedUnchecked property value)
      else checkedStore host schema target (PName property) value)"

text \<open>\<open>JsonSchema.createProxy\<close>: a proxy exists for objects and arrays only.\<close>

record proxy =
  proxyTarget :: jv
  proxySchema :: jv

definition createProxy :: "jv \<Rightarrow> jv \<Rightarrow> error + proxy" where
  "createProxy target schema =
     (if isObject target \<or> isArray target
      then Inr \<lparr>proxyTarget = target, proxySchema = schema\<rparr>
      else Inl TypeError)"

text \<open>The target after a write, where the write leaves a target of the kind described
  here, and the keys whose writes go through the schema: every name of an object, and
  the indices of an array up to its length.\<close>

fun targetAfter :: "jv \<Rightarrow> setResult \<Rightarrow> jv option" where
  "targetAfter target (Stored target') = Some target'"
| "targetAfter target (Threw e) = Some target"
| "targetAfter target (AssignedUnchecked name x) = None"
| "targetAfter target (PrototypeAssigned x) = None"

definition governedKey :: "host \<Rightarrow> jv \<Rightarrow> string \<Rightarrow> pkey option" where
  "governedKey host target property =
     (if isArray target then
        (if isDigits property \<and> parseInt host property \<le> length (items_of target)
         then Some (PIndex (parseInt host property)) else None)
      else Some (PName property))"

definition numberArray :: jv where
  "numberArray = JObj (Ref 0) [(''type'', JStr ''array''), (''items'', JObj (Ref 1) [(''type'', JStr ''number'')])]"

definition countProperty :: jv where
  "countProperty = JObj (Ref 2) [(''type'', JStr ''integer''), (''minimum'', JNum 0)]"

definition countTarget :: jv where
  "countTarget = JObj (Ref 5) [(''count'', JNum 0)]"

definition numbersTarget :: jv where
  "numbersTarget = JArr (Ref 5) [JNum 1]"

definition nestedTarget :: jv where
  "nestedTarget = JObj (Ref 5) [(''inner'', JObj (Ref 6) [])]"

definition closedSchema :: jv where
  "closedSchema = JObj (Ref 0) [(''type'', JStr ''object'')]"

definition countSchema :: jv where
  "countSchema = JObj (Ref 0) [(''type'', JStr ''object''),
     (''properties'', JObj (Ref 1) [(''count'', countProperty)])]"

lemma propertyOf_setField_same: "isObject v \<Longrightarrow> propertyOf (setField v p x) p = x"
proof (cases v)
  case (JObj r kvs)
  have "map_of (assign kvs p x) p = Some x"
    by (induction kvs) auto
  then show ?thesis using JObj by simp
qed simp_all

lemma elem_assignElem_same: "isArray v \<Longrightarrow> elem (assignElem v n x) n = x"
  by (cases v) (auto simp: nth_append)

lemma fetch_store:
  "governedKey host target property = Some k \<Longrightarrow> isObject target \<or> isArray target \<Longrightarrow>
     fetch (store target k x) k = x"
  by (cases k)
    (auto simp: governedKey_def propertyOf_setField_same elem_assignElem_same split: if_splits)

lemma handlerSet_governed:
  "governedKey host target property = Some k \<Longrightarrow>
     handlerSet host schema target property value = checkedStore host schema target k value"
  by (auto simp: governedKey_def handlerSet_def split: if_splits)

text \<open>
  C2 (amended). A write to an index beyond the length of an array target raises, and a
  write to an array target under a name that is no index is assigned as it is, with no
  schema, clone or validation. Every other write (to a name of an object target, or to
  an index of an array target up to its length) resolves the schema of the key and
  raises when there is none, or when the schema of the proxy is \<open>null\<close> or \<open>undefined\<close>;
  otherwise it validates a clone of the value against that schema, assigns the clone
  under the key when the validation returns (which stores it, except under \<open>__proto__\<close>
  on a target without an own property of that name, where the assignment is to the
  prototype), and raises, leaving the target as it was, when the validation fails.
\<close>

theorem checked_write:
  "isObject target \<or> isArray target \<longrightarrow>
     (isArray target \<and> isDigits property \<and> length (items_of target) < parseInt host property \<longrightarrow>
        handlerSet host schema target property v = Threw IndexOutOfRange) \<and>
     (isArray target \<and> \<not> isDigits property \<longrightarrow>
        handlerSet host schema target property v = AssignedUnchecked property v) \<and>
     (governedKey host target property = Some k \<longrightarrow>
        (case getPropertySchema host schema k target of
           Inl e \<Rightarrow> handlerSet host schema target property v = Threw (Raised e)
         | Inr (None, path) \<Rightarrow>
             handlerSet host schema target property v = Threw (PropertyNotSupported k)
         | Inr (Some propertySchema, path) \<Rightarrow>
             (accepts host (clone v) propertySchema \<longrightarrow>
                (if writesPrototype target k
                 then handlerSet host schema target property v = PrototypeAssigned (clone v)
                 else handlerSet host schema target property v = Stored (store target k (clone v)) \<and>
                      fetch (store target k (clone v)) k = clone v)) \<and>
             (\<not> accepts host (clone v) propertySchema \<longrightarrow>
                (\<exists>e. handlerSet host schema target property v = Threw (Raised e)) \<and>
                targetAfter target (handlerSet host schema target property v) = Some target)))"
proof (intro impI conjI)
  assume t: "isObject target \<or> isArray target"
  show "handlerSet host schema target property v = Threw IndexOutOfRange"
    if "isArray target \<and> isDigits property \<and> length (items_of target) < parseInt host property"
    using that by (simp add: handlerSet_def)
  show "handlerSet host schema target property v = AssignedUnchecked property v"
    if "isArray target \<and> \<not> isDigits property"
    using that by (simp add: handlerSet_def)
  assume g: "governedKey host target property = Some k"
  note s = handlerSet_governed [OF g, of schema v]
  show "case getPropertySchema host schema k target of
           Inl e \<Rightarrow> handlerSet host schema target property v = Threw (Raised e)
         | Inr (None, path) \<Rightarrow>
             handlerSet host schema target property v = Threw (PropertyNotSupported k)
         | Inr (Some propertySchema, path) \<Rightarrow>
             (accepts host (clone v) propertySchema \<longrightarrow>
                (if writesPrototype target k
                 then handlerSet host schema target property v = PrototypeAssigned (clone v)
                 else handlerSet host schema target property v = Stored (store target k (clone v)) \<and>
                      fetch (store target k (clone v)) k = clone v)) \<and>
             (\<not> accepts host (clone v) propertySchema \<longrightarrow>
                (\<exists>e. handlerSet host schema target property v = Threw (Raised e)) \<and>
                targetAfter target (handlerSet host schema target property v) = Some target)"
  proof (cases "getPropertySchema host schema k target")
    case (Inl e)
    then show ?thesis
      by (simp add: s checkedStore_def)
  next
    case (Inr found)
    obtain found_schema path where f: "found = (found_schema, path)"
      by (cases found)
    show ?thesis
    proof (cases found_schema)
      case None
      then show ?thesis
        using Inr f by (simp add: s checkedStore_def)
    next
      case (Some ps)
      show ?thesis
      proof (cases "accepts host (clone v) ps")
        case True
        then show ?thesis
          using Inr f Some fetch_store [OF g t]
          by (simp add: s checkedStore_def Let_def accepts_def JsonSchema_validate_def
              assignProperty_def)
      next
        case False
        then show ?thesis
          using Inr f Some
          by (auto simp: s checkedStore_def Let_def accepts_def JsonSchema_validate_def)
      qed
    qed
  qed
qed

theorem checked_write_witness:
  "(isObject countTarget \<or> isArray countTarget) \<and>
   governedKey plainHost countTarget ''count'' = Some (PName ''count'') \<and>
   getPropertySchema plainHost countSchema (PName ''count'') countTarget =
     Inr (Some countProperty,
          [(JStr ''properties'', field countSchema ''properties''), (JStr ''count'', countProperty)]) \<and>
   \<not> writesPrototype countTarget (PName ''count'') \<and>
   \<not> accepts plainHost (clone (JNum (- 1))) countProperty \<and>
   (\<exists>e. handlerSet plainHost countSchema countTarget ''count'' (JNum (- 1)) = Threw (Raised e)) \<and>
   targetAfter countTarget (handlerSet plainHost countSchema countTarget ''count'' (JNum (- 1))) =
     Some countTarget \<and>
   accepts plainHost (clone (JNum 5)) countProperty \<and>
   handlerSet plainHost countSchema countTarget ''count'' (JNum 5) =
     Stored (store countTarget (PName ''count'') (clone (JNum 5))) \<and>
   fetch (store countTarget (PName ''count'') (clone (JNum 5))) (PName ''count'') = clone (JNum 5) \<and>
   isArray numbersTarget \<and> isDigits ''7'' \<and> length (items_of numbersTarget) < parseInt plainHost ''7'' \<and>
   handlerSet plainHost numberArray numbersTarget ''7'' (JNum 2) = Threw IndexOutOfRange \<and>
   \<not> isDigits ''foo'' \<and>
   handlerSet plainHost numberArray numbersTarget ''foo'' (JNum 2) = AssignedUnchecked ''foo'' (JNum 2)"
proof -
  have h: "(isObject countTarget \<or> isArray countTarget) \<and>
      governedKey plainHost countTarget ''count'' = Some (PName ''count'')"
    by code_simp
  have r: "getPropertySchema plainHost countSchema (PName ''count'') countTarget =
     Inr (Some countProperty,
          [(JStr ''properties'', field countSchema ''properties''), (JStr ''count'', countProperty)])"
    by code_simp
  have w: "\<not> writesPrototype countTarget (PName ''count'')"
    by code_simp
  have n: "\<not> accepts plainHost (clone (JNum (- 1))) countProperty"
    by code_simp
  have a: "accepts plainHost (clone (JNum 5)) countProperty"
    by code_simp
  have i: "isArray numbersTarget \<and> isDigits ''7'' \<and> length (items_of numbersTarget) < parseInt plainHost ''7'' \<and>
      \<not> isDigits ''foo''"
    by code_simp
  show ?thesis
    using h r w n a i
      checked_write [where target = countTarget and property = "''count''" and k = "PName ''count''"
        and schema = countSchema and host = plainHost and v = "JNum (- 1)"]
      checked_write [where target = countTarget and property = "''count''" and k = "PName ''count''"
        and schema = countSchema and host = plainHost and v = "JNum 5"]
      checked_write [where target = numbersTarget and property = "''7''"
        and schema = numberArray and host = plainHost and v = "JNum 2"]
      checked_write [where target = numbersTarget and property = "''foo''"
        and schema = numberArray and host = plainHost and v = "JNum 2"]
    by simp
qed

text \<open>The claim as stated fails for an array target and a name that is no index: the
  caller's value is assigned as it is, although no clone of it validates against the
  schema that governs the name.\<close>

theorem unchecked_write_counterexample:
  "isArray numbersTarget \<and>
   getPropertySchema plainHost numberArray (PName ''foo'') numbersTarget =
     Inr (Some (field numberArray ''items''), []) \<and>
   \<not> accepts plainHost (clone (JObj (Ref 6) [])) (field numberArray ''items'') \<and>
   clone (JObj (Ref 6) []) \<noteq> JObj (Ref 6) [] \<and>
   handlerSet plainHost numberArray numbersTarget ''foo'' (JObj (Ref 6) []) =
     AssignedUnchecked ''foo'' (JObj (Ref 6) [])"
  by code_simp

text \<open>
  C10. For a proxy made by \<open>createProxy\<close> and a symbol key, a read gives the target's own
  value for the key: the same whatever the schema, and never a child proxy.
\<close>

theorem symbol_read_direct:
  "createProxy target schema = Inr p \<longrightarrow>
     handlerGet host (proxySchema p) (proxyTarget p) (KSymbol s) = Direct (KSymbol s) \<and>
     (\<forall>schema'. handlerGet host schema' (proxyTarget p) (KSymbol s) =
        handlerGet host (proxySchema p) (proxyTarget p) (KSymbol s)) \<and>
     (\<forall>v propertySchema.
        handlerGet host (proxySchema p) (proxyTarget p) (KSymbol s) \<noteq> Wrapped v propertySchema)"
  by (simp add: handlerGet_def)

theorem symbol_read_direct_witness:
  "createProxy nestedTarget closedSchema =
     Inr \<lparr>proxyTarget = nestedTarget, proxySchema = closedSchema\<rparr> \<and>
   handlerGet plainHost closedSchema nestedTarget (KSymbol 0) = Direct (KSymbol 0) \<and>
   handlerGet plainHost closedSchema nestedTarget (KString ''inner'') = Wrapped (JObj (Ref 6) []) unconstrainedSchema"
proof -
  have h: "createProxy nestedTarget closedSchema =
     Inr \<lparr>proxyTarget = nestedTarget, proxySchema = closedSchema\<rparr>"
    by code_simp
  have w: "handlerGet plainHost closedSchema nestedTarget (KString ''inner'') = Wrapped (JObj (Ref 6) []) unconstrainedSchema"
    by code_simp
  show ?thesis
    using h w symbol_read_direct [where target = nestedTarget and schema = closedSchema
        and p = "\<lparr>proxyTarget = nestedTarget, proxySchema = closedSchema\<rparr>" and s = 0]
    by simp
qed


end
